theory Spec2Isabelle
  imports Main "HOL-Library.Word"
begin

section \<open>Streams: byte sequences, faults, readers and writers\<close>

text \<open>
  A Go byte slice is a list of 8-bit characters. A Go \<^verbatim>\<open>error\<close> value is either
  \<^verbatim>\<open>io.EOF\<close>, some other fault, or a fault wrapped by \<^verbatim>\<open>fmt.Errorf("...: %w", err)\<close>
  (the wrapping text is kept as a short tag). The value \<^verbatim>\<open>nil\<close> is \<open>None\<close>.
  The result \<open>(bs, e)\<close> of a \<^verbatim>\<open>Read(p)\<close> call stands for \<^verbatim>\<open>n = len(bs)\<close>, the bytes
  \<^verbatim>\<open>p[:n] = bs\<close> and the error \<open>e\<close>.
\<close>

type_synonym bytes = string

datatype err = EOF | Fault string | Wrap string err

type_synonym read_result = "bytes \<times> err option"

text \<open>
  The readers the programs use (Go's \<^verbatim>\<open>io.Reader\<close> values):
  \<^item> \<open>Script rs\<close>: an arbitrary source, given by the results its successive \<^verbatim>\<open>Read\<close>
    calls return (each within the capacity of the buffer it is handed, as the
    \<^verbatim>\<open>io.Reader\<close> contract demands); once the results are used up, every further call
    returns \<^verbatim>\<open>(0, io.EOF)\<close>. A result \<open>([], None)\<close> is a stall.
  \<^item> \<open>StringsReader s\<close>: \<^verbatim>\<open>strings.NewReader\<close>, and a regular file read from its start:
    the bytes still unread.
  \<^item> \<open>TeeReader r h\<close>: \<^verbatim>\<open>io.TeeReader(r, hash)\<close> with a hash as the mirror; \<open>h\<close> is the
    hash object, see \<open>hash_Write\<close> below.
\<close>

datatype reader =
    Script "read_result list"
  | StringsReader bytes
  | TeeReader reader bytes

text \<open>
  \<^verbatim>\<open>hash.Hash\<close> (here \<^verbatim>\<open>md5.New()\<close>) is opaque: its state is the sequence of bytes written
  to it so far, \<^verbatim>\<open>Write\<close> appends and never fails, and \<^verbatim>\<open>Sum(nil)\<close> applies the digest
  function, which the programs below take as a parameter.
\<close>

definition hash_Write :: "bytes \<Rightarrow> bytes \<Rightarrow> (nat \<times> err option) \<times> bytes" where
  "hash_Write bs h = ((length bs, None), h @ bs)"

definition hash_Sum :: "(bytes \<Rightarrow> 'd) \<Rightarrow> bytes \<Rightarrow> 'd" where
  "hash_Sum digest h = digest h"

text \<open>
  \<^verbatim>\<open>Read(p)\<close> with \<^verbatim>\<open>len(p) = cap\<close>. For the tee reader (Go's \<^verbatim>\<open>teeReader.Read\<close>): read
  from the inner reader, write what was read to the mirror when \<^verbatim>\<open>n > 0\<close>, and return
  the mirror's fault if it has one.
\<close>

fun Read :: "nat \<Rightarrow> reader \<Rightarrow> read_result \<times> reader" where
  "Read cap (Script []) = (([], Some EOF), Script [])"
| "Read cap (Script (r # rs)) = (r, Script rs)"
| "Read cap (StringsReader s) =
     (if s = [] then (([], Some EOF), StringsReader s)
      else ((take cap s, None), StringsReader (drop cap s)))"
| "Read cap (TeeReader r h) =
     (case Read cap r of ((bs, e), r') \<Rightarrow>
        if bs \<noteq> [] then
          (case hash_Write bs h of ((n, ew), h') \<Rightarrow>
             if ew \<noteq> None then ((take n bs, ew), TeeReader r' h')
             else ((bs, e), TeeReader r' h'))
        else ((bs, e), TeeReader r' h))"

fun pending :: "reader \<Rightarrow> nat" where
  "pending (Script rs) = length rs"
| "pending (StringsReader s) = length s"
| "pending (TeeReader r h) = pending r"

fun mirror :: "reader \<Rightarrow> bytes" where
  "mirror (TeeReader r h) = h"
| "mirror _ = []"

lemma Read_pending:
  "Read cap r = ((bs, e), r') \<Longrightarrow> 0 < cap \<Longrightarrow> bs \<noteq> [] \<or> e = None \<Longrightarrow>
   pending r' < pending r"
proof (induction r arbitrary: bs e r')
  case (Script rs)
  then show ?case by (cases rs) auto
next
  case (StringsReader s)
  then show ?case by (auto split: if_splits)
next
  case (TeeReader r h)
  then show ?case by (auto simp: hash_Write_def split: prod.splits if_splits)
qed

text \<open>A writer (Go's \<^verbatim>\<open>io.Writer\<close>) over a sink state: \<^verbatim>\<open>Write(bs)\<close> returns \<^verbatim>\<open>(n, err)\<close>.\<close>

type_synonym 'k Writer = "bytes \<Rightarrow> 'k \<Rightarrow> (nat \<times> err option) \<times> 'k"

text \<open>
  \<^verbatim>\<open>io.Copy(dst, src)\<close>, the loop of Go's \<^verbatim>\<open>io.copyBuffer\<close> with its 32 KiB buffer:
  \<^verbatim>\<open>
  for {
      nr, er := src.Read(buf)
      if nr > 0 {
          nw, ew := dst.Write(buf[0:nr])
          if nw < 0 || nr < nw { nw = 0; if ew == nil { ew = errInvalidWrite } }
          written += int64(nw)
          if ew != nil { err = ew; break }
          if nr != nw { err = ErrShortWrite; break }
      }
      if er != nil { if er != EOF { err = er }; break }
  }
  return written, err
  \<close>
  A stall \<^verbatim>\<open>(0, nil)\<close> goes round the loop again. The count is a natural number (the
  \<^verbatim>\<open>int64\<close> cannot overflow on data that fits a disk).
\<close>

function io_Copy ::
  "'k Writer \<Rightarrow> reader \<Rightarrow> 'k \<Rightarrow> nat \<Rightarrow> (nat \<times> err option) \<times> reader \<times> 'k" where
  "io_Copy wr src dst written =
     (case Read 32768 src of ((bs, er), src') \<Rightarrow>
        (case (if bs \<noteq> [] then wr bs dst else ((0, None), dst)) of ((nw0, ew0), dst') \<Rightarrow>
           (let nw = (if length bs < nw0 then 0 else nw0);
                ew = (if length bs < nw0 \<and> ew0 = None then Some (Fault ''invalid write result'')
                      else ew0)
            in if ew \<noteq> None then ((written + nw, ew), src', dst')
               else if length bs \<noteq> nw
               then ((written + nw, Some (Fault ''short write'')), src', dst')
               else (case er of
                       None \<Rightarrow> io_Copy wr src' dst' (written + nw)
                     | Some EOF \<Rightarrow> ((written + nw, None), src', dst')
                     | Some e \<Rightarrow> ((written + nw, Some e), src', dst')))))"
  by pat_completeness auto
termination
  apply (relation "measure (\<lambda>(wr, src, dst, written). pending src)")
   apply simp
  apply (auto dest!: Read_pending sym [of _ "Read _ _"])
  done

declare io_Copy.simps [simp del]

section \<open>Paths and the disk\<close>

text \<open>
  A path string names a file by its lexical resolution: the segments between slashes,
  with empty segments and \<^verbatim>\<open>.\<close> dropped and \<^verbatim>\<open>..\<close> removing the segment before it. A
  relative path is resolved against the working directory, where a \<^verbatim>\<open>..\<close> with nothing
  left to remove is kept in front; an absolute path starts with the marker \<^verbatim>\<open>/\<close>, which
  \<^verbatim>\<open>..\<close> does not remove. Symbolic links are not modelled, and the disk below holds
  regular files only: a path that names a directory is a path with no file.
\<close>

type_synonym path = "string list"

fun split_slash :: "string \<Rightarrow> string list" where
  "split_slash [] = [[]]"
| "split_slash (c # cs) =
     (if c = CHR ''/'' then [] # split_slash cs
      else (case split_slash cs of
              [] \<Rightarrow> [[c]]
            | s # ss \<Rightarrow> (c # s) # ss))"

definition resolve_step :: "path \<Rightarrow> string \<Rightarrow> path" where
  "resolve_step acc seg =
     (if seg = [] \<or> seg = ''.'' then acc
      else if seg = ''..'' then
        (if acc = [] \<or> last acc = ''..'' then acc @ [seg]
         else if acc = [''/''] then acc
         else butlast acc)
      else acc @ [seg])"

definition path_key :: "string \<Rightarrow> path" where
  "path_key p =
     foldl resolve_step (if take 1 p = ''/'' then [''/''] else []) (split_slash p)"

text \<open>
  The upload root is the directory \<^verbatim>\<open>uploads\<close> of the working directory. A resolved path
  is inside it when it names something strictly below that directory.
\<close>

definition inside_upload_root :: "path \<Rightarrow> bool" where
  "inside_upload_root k = (case k of [] \<Rightarrow> False | d # rest \<Rightarrow> d = ''uploads'' \<and> rest \<noteq> [])"

text \<open>
  \<^verbatim>\<open>filepath.Base\<close> on Unix: the empty path gives \<^verbatim>\<open>.\<close>; trailing slashes are stripped;
  the result is what follows the last remaining slash; a path of slashes only gives \<^verbatim>\<open>/\<close>.
\<close>

definition filepath_Base :: "string \<Rightarrow> string" where
  "filepath_Base path =
     (if path = [] then ''.''
      else let p = rev (dropWhile (\<lambda>c. c = CHR ''/'') (rev path))
           in if p = [] then ''/''
              else rev (takeWhile (\<lambda>c. c \<noteq> CHR ''/'') (rev p)))"

text \<open>
  A stored file has its content and a flag telling whether the content has been synced
  to stable storage since it last changed. The disk holds the files by resolved path,
  and the answers of the operating system the programs depend on: whether a path can be
  created (its directory exists and is writable, it is not a directory itself), how many
  more bytes fit (\<open>None\<close>: no bound), and whether \<^verbatim>\<open>Stat\<close> and \<^verbatim>\<open>Sync\<close> fail.
\<close>

record stored_file =
  content :: bytes
  synced :: bool

record disk =
  files :: "path \<rightharpoonup> stored_file"
  creatable :: "path \<Rightarrow> bool"
  room :: "nat option"
  stat_fails :: bool
  sync_fails :: bool

text \<open>\<^verbatim>\<open>os.Open\<close>: the content of the file, or a fault when there is no such file.\<close>

definition os_Open :: "disk \<Rightarrow> string \<Rightarrow> err + bytes" where
  "os_Open d name =
     (case files d (path_key name) of
        None \<Rightarrow> Inl (Fault ''no such file'')
      | Some f \<Rightarrow> Inr (content f))"

text \<open>
  \<^verbatim>\<open>os.Create\<close> opens with \<^verbatim>\<open>O_RDWR|O_CREATE|O_TRUNC\<close>: a file that exists is emptied.
  The handle is the resolved path.
\<close>

definition os_Create :: "disk \<Rightarrow> string \<Rightarrow> err + (path \<times> disk)" where
  "os_Create d name =
     (let k = path_key name
      in if creatable d k
         then Inr (k, d\<lparr>files := (files d)(k \<mapsto> \<lparr>content = [], synced = False\<rparr>)\<rparr>)
         else Inl (Fault ''cannot create''))"

text \<open>
  \<^verbatim>\<open>(*os.File).Write\<close> at the end of the file: when the disk has room for fewer bytes than
  offered, those are written and the call faults.
\<close>

definition File_Write :: "path \<Rightarrow> disk Writer" where
  "File_Write k bs d =
     (case files d k of
        None \<Rightarrow> ((0, Some (Fault ''file already closed'')), d)
      | Some f \<Rightarrow>
          (let n = (case room d of None \<Rightarrow> length bs | Some q \<Rightarrow> min q (length bs));
               d' = d\<lparr>files := (files d)(k \<mapsto> \<lparr>content = content f @ take n bs, synced = False\<rparr>),
                       room := (case room d of None \<Rightarrow> None | Some q \<Rightarrow> Some (q - n))\<rparr>
           in ((n, if n < length bs then Some (Fault ''no space left on device'') else None), d')))"

definition File_Sync :: "path \<Rightarrow> disk \<Rightarrow> err option \<times> disk" where
  "File_Sync k d =
     (if sync_fails d then (Some (Fault ''sync''), d)
      else (None, d\<lparr>files := (case files d k of
                                 None \<Rightarrow> files d
                               | Some f \<Rightarrow> (files d)(k \<mapsto> f\<lparr>synced := True\<rparr>))\<rparr>))"

definition os_Remove :: "disk \<Rightarrow> string \<Rightarrow> disk" where
  "os_Remove d name = d\<lparr>files := (files d)(path_key name := None)\<rparr>"

section \<open>The HTTP handlers (step 9)\<close>

text \<open>
  Of a request the handlers read the method, the \<^verbatim>\<open>file\<close> query parameter (empty when
  absent) and the multipart form: \<^verbatim>\<open>ParseMultipartForm\<close> may fail, \<^verbatim>\<open>FormFile("file")\<close> may
  fail, or they give the part's reader and \<^verbatim>\<open>header.Filename\<close>. The \<^verbatim>\<open>10 << 20\<close> handed to
  \<^verbatim>\<open>ParseMultipartForm\<close> is how much of the form is kept in memory (the rest goes to
  temporary files); the form it gives is the same, so the number has no place in the
  model. The handler is modelled on the \<^verbatim>\<open>header.Filename\<close> it is handed; what
  \<^verbatim>\<open>r.FormFile\<close> hands it for the file name a client sent is \<open>Request_FormFile\<close> below.

  A response is an \<^verbatim>\<open>http.Error\<close> with its status code (the message text is left out), a
  download (status 200, the headers set and the body written), the call of
  \<^verbatim>\<open>http.ServeContent\<close> with the headers set before it, the name and the content, or the
  success line of an upload with the file name and the byte count it prints.
\<close>

datatype form = ParseError | MissingFile | FormFile string reader

record request =
  Method :: string
  query_file :: string
  multipart :: form

text \<open>
  \<^verbatim>\<open>r.FormFile("file")\<close> for a part \<^verbatim>\<open>file\<close> whose \<^verbatim>\<open>Content-Disposition\<close> carries the file name
  \<^verbatim>\<open>filename\<close>. Go's \<^verbatim>\<open>mime/multipart\<close> (from Go 1.17 on) sets \<^verbatim>\<open>header.Filename\<close> to
  \<^verbatim>\<open>Part.FileName()\<close>, which is empty for an empty name and \<^verbatim>\<open>filepath.Base\<close> of the name
  otherwise; a part with an empty file name is no file, and \<^verbatim>\<open>FormFile\<close> fails.
\<close>

definition Part_FileName :: "string \<Rightarrow> string" where
  "Part_FileName filename = (if filename = [] then [] else filepath_Base filename)"

definition Request_FormFile :: "string \<Rightarrow> reader \<Rightarrow> form" where
  "Request_FormFile filename file =
     (if Part_FileName filename = [] then MissingFile
      else FormFile (Part_FileName filename) file)"

datatype response =
    Error nat
  | Download "(string \<times> string) list" bytes
  | ServeContent "(string \<times> string) list" string bytes
  | Uploaded string nat

definition StatusBadRequest :: nat where "StatusBadRequest = 400"
definition StatusNotFound :: nat where "StatusNotFound = 404"
definition StatusMethodNotAllowed :: nat where "StatusMethodNotAllowed = 405"
definition StatusRequestEntityTooLarge :: nat where "StatusRequestEntityTooLarge = 413"
definition StatusInternalServerError :: nat where "StatusInternalServerError = 500"

text \<open>\<^verbatim>\<open>strconv.FormatInt(n, 10)\<close> for a size, which is never negative.\<close>

fun FormatInt :: "nat \<Rightarrow> string" where
  "FormatInt n =
     (if n < 10 then [''0123456789'' ! n]
      else FormatInt (n div 10) @ [''0123456789'' ! (n mod 10)])"

declare FormatInt.simps [simp del]

definition ResponseWriter_Write :: "bytes Writer" where
  "ResponseWriter_Write bs body = ((length bs, None), body @ bs)"

text \<open>
  \<^verbatim>\<open>downloadHandler\<close>: the file is opened under its base name, the
  \<^verbatim>\<open>Content-Disposition\<close> header is formatted from \<^verbatim>\<open>filename\<close>, and the file is copied to
  the response. A fault of the copy is logged only; the body is what was written.
\<close>

definition downloadHandler :: "disk \<Rightarrow> request \<Rightarrow> response" where
  "downloadHandler d r =
     (let filename = query_file r
      in if filename = [] then Error StatusBadRequest
         else
           let safeFilename = filepath_Base filename
           in case os_Open d (''./uploads/'' @ safeFilename) of
                Inl e \<Rightarrow> Error StatusNotFound
              | Inr data \<Rightarrow>
                  if stat_fails d then Error StatusInternalServerError
                  else
                    let hdr = [(''Content-Disposition'', ''attachment; filename='' @ filename),
                               (''Content-Type'', ''application/octet-stream''),
                               (''Content-Length'', FormatInt (length data))]
                    in case io_Copy ResponseWriter_Write (StringsReader data) [] 0 of
                         (res, src', body) \<Rightarrow> Download hdr body)"

text \<open>
  \<^verbatim>\<open>rangeDownloadHandler\<close>: as above, but the header is formatted from \<^verbatim>\<open>safeFilename\<close>
  and the transfer is left to \<^verbatim>\<open>http.ServeContent\<close>.
\<close>

definition rangeDownloadHandler :: "disk \<Rightarrow> request \<Rightarrow> response" where
  "rangeDownloadHandler d r =
     (let filename = query_file r
      in if filename = [] then Error StatusBadRequest
         else
           let safeFilename = filepath_Base filename
           in case os_Open d (''./uploads/'' @ safeFilename) of
                Inl e \<Rightarrow> Error StatusNotFound
              | Inr data \<Rightarrow>
                  if stat_fails d then Error StatusInternalServerError
                  else ServeContent
                         [(''Content-Disposition'', ''attachment; filename='' @ safeFilename)]
                         safeFilename data)"

text \<open>
  \<^verbatim>\<open>uploadHandler\<close>: the destination is \<^verbatim>\<open>os.Create("uploads/" + header.Filename)\<close>, the
  part is copied into it with \<^verbatim>\<open>io.Copy\<close>, and the deferred \<^verbatim>\<open>Close\<close> calls change nothing
  on the disk. The handler returns the response and the disk it leaves.
\<close>

definition uploadHandler :: "disk \<Rightarrow> request \<Rightarrow> response \<times> disk" where
  "uploadHandler d r =
     (if Method r \<noteq> ''POST'' then (Error StatusMethodNotAllowed, d)
      else case multipart r of
             ParseError \<Rightarrow> (Error StatusBadRequest, d)
           | MissingFile \<Rightarrow> (Error StatusBadRequest, d)
           | FormFile header_Filename file \<Rightarrow>
               (case os_Create d (''uploads/'' @ header_Filename) of
                  Inl e \<Rightarrow> (Error StatusInternalServerError, d)
                | Inr (dst, d1) \<Rightarrow>
                    (case io_Copy (File_Write dst) file d1 0 of
                       ((written, e), file', d2) \<Rightarrow>
                         if e \<noteq> None then (Error StatusInternalServerError, d2)
                         else (Uploaded header_Filename written, d2))))"

section \<open>Safe file copy (step 8)\<close>

text \<open>
  \<^verbatim>\<open>safeCopyFile(src, dst)\<close> returns its error and the disk it leaves. The deferred
  function closes the destination and, when the named result \<^verbatim>\<open>err\<close> is not nil, removes
  \<^verbatim>\<open>dst\<close>. The source is read after the destination has been created (and emptied).
\<close>

definition safeCopyFile :: "disk \<Rightarrow> string \<Rightarrow> string \<Rightarrow> err option \<times> disk" where
  "safeCopyFile d src dst =
     (case os_Open d src of
        Inl e \<Rightarrow> (Some (Wrap ''open source'' e), d)
      | Inr data0 \<Rightarrow>
          (case os_Create d dst of
             Inl e \<Rightarrow> (Some (Wrap ''create destination'' e), d)
           | Inr (destFile, d1) \<Rightarrow>
               (let sourceFile = StringsReader (case os_Open d1 src of Inl e \<Rightarrow> [] | Inr data \<Rightarrow> data)
                in case io_Copy (File_Write destFile) sourceFile d1 0 of
                     ((written, e), src', d2) \<Rightarrow>
                       (case e of
                          Some e' \<Rightarrow> (Some (Wrap ''copy'' e'), os_Remove d2 dst)
                        | None \<Rightarrow>
                            (case File_Sync destFile d2 of
                               (Some e', d3) \<Rightarrow> (Some (Wrap ''sync'' e'), os_Remove d3 dst)
                             | (None, d3) \<Rightarrow> (None, d3))))))"

section \<open>Reader adapters (step 11)\<close>

text \<open>
  \<^verbatim>\<open>ProgressReader\<close> wraps any reader: the inner \<^verbatim>\<open>Read\<close> is a parameter \<open>rd\<close> acting on the
  inner reader's state. \<^verbatim>\<open>current\<close> and \<^verbatim>\<open>total\<close> are \<^verbatim>\<open>int64\<close>. The callback is observed
  through the list of the argument pairs it has been called with; the field says whether
  it is set (not nil). The struct of the same name in step 9 differs only in naming the
  field \<^verbatim>\<open>onProgress\<close>. Both records below name their inner reader \<^verbatim>\<open>reader\<close>, as the
  source does; the progress reader's is written \<open>ProgressReader.reader\<close> further down.
\<close>

record 's ProgressReader =
  reader :: 's
  total :: "64 word"
  current :: "64 word"
  callback :: bool

definition NewProgressReader :: "'s \<Rightarrow> 64 word \<Rightarrow> bool \<Rightarrow> 's ProgressReader" where
  "NewProgressReader r n cb = \<lparr>reader = r, total = n, current = 0, callback = cb\<rparr>"

definition ProgressReader_Read ::
  "(nat \<Rightarrow> 's \<Rightarrow> read_result \<times> 's) \<Rightarrow> nat \<Rightarrow> 's ProgressReader \<Rightarrow> (64 word \<times> 64 word) list \<Rightarrow>
   read_result \<times> 's ProgressReader \<times> (64 word \<times> 64 word) list" where
  "ProgressReader_Read rd len_p pr calls =
     (case rd len_p (reader pr) of
        ((bs, e), r') \<Rightarrow>
          (let pr' = pr\<lparr>reader := r', current := current pr + of_nat (length bs)\<rparr>
           in ((bs, e), pr',
               if callback pr' then calls @ [(current pr', total pr')] else calls)))"

text \<open>
  \<^verbatim>\<open>ThrottledReader\<close>: times are nanoseconds on the monotonic clock; \<open>now\<close> is the clock at
  \<^verbatim>\<open>time.Since(tr.lastRead)\<close> and \<open>now'\<close> at the \<^verbatim>\<open>time.Now()\<close> after the inner read. The
  \<^verbatim>\<open>float64\<close> product \<^verbatim>\<open>float64(tr.bytesPerSec) * elapsed.Seconds()\<close> is taken exactly and
  truncated towards zero by the conversion to \<^verbatim>\<open>int64\<close>; the floating-point product is
  that exact value whenever \<open>elapsed\<close> is a whole number of seconds and the product is
  below \<open>2 ^ 53\<close>; elsewhere the code's result can differ from the exact one by the
  rounding of \<^verbatim>\<open>float64\<close>, and a product beyond the range of \<^verbatim>\<open>int64\<close> is not modelled.
  Slicing \<^verbatim>\<open>p[:allowedBytes]\<close> with a negative bound panics. On a stall the
  call sleeps 10 ms, which shows only in the clock values of later calls.
\<close>

record 's ThrottledReader =
  reader :: 's
  bytesPerSec :: int
  lastRead :: int

definition allowedBytes :: "int \<Rightarrow> int \<Rightarrow> int" where
  "allowedBytes bps elapsed =
     (let x = bps * elapsed
      in if 0 \<le> x then x div 1000000000 else - ((- x) div 1000000000))"

datatype 'a outcome = Panic | Returns 'a

definition ThrottledReader_Read ::
  "(nat \<Rightarrow> 's \<Rightarrow> read_result \<times> 's) \<Rightarrow> nat \<Rightarrow> int \<Rightarrow> int \<Rightarrow> 's ThrottledReader \<Rightarrow>
   (read_result \<times> 's ThrottledReader) outcome" where
  "ThrottledReader_Read rd len_p now now' tr =
     (let elapsed = now - lastRead tr;
          allowed = allowedBytes (bytesPerSec tr) elapsed
      in if allowed < int len_p \<and> allowed < 0 then Panic
         else
           let len_p' = (if allowed < int len_p then nat allowed else len_p)
           in if len_p' = 0 then Returns (([], None), tr)
              else (case rd len_p' (reader tr) of
                      (res, r') \<Rightarrow> Returns (res, tr\<lparr>reader := r', lastRead := now'\<rparr>)))"

text \<open>\<^verbatim>\<open>NewThrottledReader\<close>, called when the clock shows \<open>now\<close>.\<close>

definition NewThrottledReader :: "'s \<Rightarrow> int \<Rightarrow> int \<Rightarrow> 's ThrottledReader" where
  "NewThrottledReader r bps now = \<lparr>reader = r, bytesPerSec = bps, lastRead = now\<rparr>"

section \<open>Chunked reading of a file (step 4)\<close>




section \<open>Tee reader with a checksum (step 5)\<close>

text \<open>
  \<^verbatim>\<open>teeReaderPattern\<close> for any \<^verbatim>\<open>data\<close>: the result is the checksum and the byte count it
  prints, the hash object at the end, and the disk. The error of \<^verbatim>\<open>os.Create\<close> is
  dropped by the program, which then copies into a nil \<^verbatim>\<open>*os.File\<close>: that copy fails in the
  file's \<^verbatim>\<open>ReadFrom\<close> before anything is read, so the hash is written nothing.
\<close>

definition teeReaderPattern ::
  "(bytes \<Rightarrow> 'd) \<Rightarrow> disk \<Rightarrow> bytes \<Rightarrow> ('d \<times> nat) \<times> bytes \<times> disk" where
  "teeReaderPattern md5 d data =
     (let reader = StringsReader data;
          hash = [];
          teeReader = TeeReader reader hash
      in case (case os_Create d ''tee_reader.txt'' of
                 Inl e \<Rightarrow> ((0, Some (Fault ''invalid argument'')), teeReader, d)
               | Inr (file, d1) \<Rightarrow> io_Copy (File_Write file) teeReader d1 0) of
           ((written, e), teeReader', d2) \<Rightarrow>
             ((hash_Sum md5 (mirror teeReader'), written), mirror teeReader', d2))"

section \<open>What a reader yields, and what a copy leaves on the disk\<close>

text \<open>
  The bytes a reader gives up to its end of data or its first fault, the fault it ends
  with (if any), and the reader that is left once it has been read that far.
\<close>

fun script_yield :: "read_result list \<Rightarrow> bytes" where
  "script_yield [] = []"
| "script_yield ((bs, None) # rs) = bs @ script_yield rs"
| "script_yield ((bs, Some e) # rs) = bs"

fun script_fault :: "read_result list \<Rightarrow> err option" where
  "script_fault [] = None"
| "script_fault ((bs, None) # rs) = script_fault rs"
| "script_fault ((bs, Some e) # rs) = (if e = EOF then None else Some e)"

fun script_rest :: "read_result list \<Rightarrow> read_result list" where
  "script_rest [] = []"
| "script_rest ((bs, None) # rs) = script_rest rs"
| "script_rest ((bs, Some e) # rs) = rs"

fun yield :: "reader \<Rightarrow> bytes" where
  "yield (Script rs) = script_yield rs"
| "yield (StringsReader s) = s"
| "yield (TeeReader r h) = yield r"

fun fault_of :: "reader \<Rightarrow> err option" where
  "fault_of (Script rs) = script_fault rs"
| "fault_of (StringsReader s) = None"
| "fault_of (TeeReader r h) = fault_of r"

fun drained :: "reader \<Rightarrow> reader" where
  "drained (Script rs) = Script (script_rest rs)"
| "drained (StringsReader s) = StringsReader []"
| "drained (TeeReader r h) = TeeReader (drained r) (h @ yield r)"

text \<open>The disk has room for \<open>m\<close> more bytes.\<close>

definition room_for :: "disk \<Rightarrow> nat \<Rightarrow> bool" where
  "room_for d m = (case room d of None \<Rightarrow> True | Some q \<Rightarrow> m \<le> q)"

text \<open>The disk after \<open>bs\<close> has been written behind the content of \<open>f\<close> at \<open>k\<close>, and after
  \<open>k\<close> has been created.\<close>

definition appended :: "path \<Rightarrow> stored_file \<Rightarrow> bytes \<Rightarrow> disk \<Rightarrow> disk" where
  "appended k f bs d =
     d\<lparr>files := (files d)(k \<mapsto> \<lparr>content = content f @ bs, synced = False\<rparr>),
       room := map_option (\<lambda>q. q - length bs) (room d)\<rparr>"

definition created :: "path \<Rightarrow> disk \<Rightarrow> disk" where
  "created k d = d\<lparr>files := (files d)(k \<mapsto> \<lparr>content = [], synced = False\<rparr>)\<rparr>"

text \<open>The resolved destination of an upload named \<open>name\<close>.\<close>

definition upload_path :: "string \<Rightarrow> path" where
  "upload_path name = path_key (''uploads/'' @ name)"

text \<open>Concrete requests and disks for the examples below: an empty disk on which every
  path can be created, the same disk with the working directory and \<^verbatim>\<open>uploads\<close> being
  directories (which cannot be created as files), and a disk with one more synced file.\<close>

definition upload_request :: "string \<Rightarrow> reader \<Rightarrow> request" where
  "upload_request name file = \<lparr>Method = ''POST'', query_file = [], multipart = FormFile name file\<rparr>"

definition download_request :: "string \<Rightarrow> request" where
  "download_request name = \<lparr>Method = ''GET'', query_file = name, multipart = ParseError\<rparr>"

definition disk0 :: disk where
  "disk0 = \<lparr>files = Map.empty, creatable = (\<lambda>k. True), room = None,
            stat_fails = False, sync_fails = False\<rparr>"

definition disk1 :: disk where
  "disk1 = disk0\<lparr>creatable := (\<lambda>k. k \<noteq> [] \<and> k \<noteq> [''uploads''])\<rparr>"

definition stored :: "path \<Rightarrow> bytes \<Rightarrow> disk \<Rightarrow> disk" where
  "stored k bs d = d\<lparr>files := (files d)(k \<mapsto> \<lparr>content = bs, synced = True\<rparr>)\<rparr>"

section \<open>Lemmas on reading and copying\<close>

lemma Read_yield:
  "Read cap r = ((bs, e), r') \<Longrightarrow>
   yield r = bs @ (if e = None then yield r' else []) \<and>
   fault_of r = (case e of None \<Rightarrow> fault_of r' | Some x \<Rightarrow> if x = EOF then None else Some x) \<and>
   drained r = (if e = None then drained r' else r')"
proof (induction r arbitrary: bs e r')
  case (Script rs)
  show ?case
  proof (cases rs)
    case Nil
    with Script show ?thesis by auto
  next
    case (Cons x xs)
    with Script show ?thesis by (cases x; cases "snd x") auto
  qed
next
  case (StringsReader s)
  then show ?case by (auto split: if_splits)
next
  case (TeeReader r h)
  then show ?case by (auto simp: hash_Write_def split: prod.splits if_splits)
qed

lemma appended_Nil: "files d k = Some f \<Longrightarrow> \<not> synced f \<Longrightarrow> appended k f [] d = d"
  by (simp add: appended_def fun_upd_idem option.map_ident)

lemma File_Write_appended:
  "files d k = Some f \<Longrightarrow> room_for d (length bs) \<Longrightarrow>
   File_Write k bs d = ((length bs, None), appended k f bs d)"
  by (auto simp: File_Write_def appended_def room_for_def Let_def split: option.splits)

lemma appended_appended:
  "appended k \<lparr>content = content f @ a, synced = False\<rparr> b (appended k f a d) =
   appended k f (a @ b) d"
  by (cases "room d") (auto simp: appended_def)

text \<open>
  Copying into an open, unsynced file on a disk with room for everything the source
  yields: all of it is appended, the count is its length, and the error is the source's
  fault.
\<close>

lemma io_Copy_File_Write:
  "files d k = Some f \<Longrightarrow> \<not> synced f \<Longrightarrow> room_for d (length (yield src)) \<Longrightarrow>
   io_Copy (File_Write k) src d n =
     ((n + length (yield src), fault_of src), drained src, appended k f (yield src) d)"
proof (induction "File_Write k" src d n arbitrary: f rule: io_Copy.induct)
  case (1 src dst written)
  obtain bs er src' where R: "Read 32768 src = ((bs, er), src')"
    by (metis prod.exhaust)
  note Y = Read_yield [OF R]
  have room_bs: "room_for dst (length bs)"
    using "1.prems"(3) Y by (auto simp: room_for_def split: option.splits)
  show ?case
  proof (cases "bs = []")
    case True
    show ?thesis
    proof (cases er)
      case None
      have "io_Copy (File_Write k) src' dst (written + 0) =
        ((written + 0 + length (yield src'), fault_of src'), drained src',
         appended k f (yield src') dst)"
        using "1.hyps" [OF R [symmetric] refl _ refl refl refl, of 0 None dst f]
          True None "1.prems" Y
        by simp
      then show ?thesis
        using R True None Y by (subst io_Copy.simps) simp
    next
      case (Some x)
      then show ?thesis
        using R True Y "1.prems" by (subst io_Copy.simps) (cases x; simp add: appended_Nil)
    qed
  next
    case False
    have W: "File_Write k bs dst = ((length bs, None), appended k f bs dst)"
      using File_Write_appended "1.prems"(1) room_bs by simp
    show ?thesis
    proof (cases er)
      case None
      let ?f' = "\<lparr>content = content f @ bs, synced = False\<rparr>"
      have f': "files (appended k f bs dst) k = Some ?f'"
        by (simp add: appended_def)
      have r': "room_for (appended k f bs dst) (length (yield src'))"
        using "1.prems"(3) Y None
        by (auto simp: room_for_def appended_def split: option.splits)
      have "io_Copy (File_Write k) src' (appended k f bs dst) (written + length bs) =
        ((written + length bs + length (yield src'), fault_of src'), drained src',
          appended k ?f' (yield src') (appended k f bs dst))"
        using "1.hyps" [OF R [symmetric] refl _ refl refl refl,
            of "length bs" None "appended k f bs dst" ?f'] False None W f' r'
        by simp
      then show ?thesis
        using R False None Y W by (subst io_Copy.simps) (simp add: appended_appended)
    next
      case (Some x)
      then show ?thesis
        using R False Y W by (subst io_Copy.simps) (cases x; simp)
    qed
  qed
qed

lemma io_Copy_ResponseWriter:
  "io_Copy ResponseWriter_Write src body n =
     ((n + length (yield src), fault_of src), drained src, body @ yield src)"
proof (induction ResponseWriter_Write src body n rule: io_Copy.induct)
  case (1 src dst written)
  obtain bs er src' where R: "Read 32768 src = ((bs, er), src')"
    by (metis prod.exhaust)
  note Y = Read_yield [OF R]
  show ?case
  proof (cases er)
    case None
    let ?dst' = "if bs \<noteq> [] then dst @ bs else dst"
    have "io_Copy ResponseWriter_Write src' ?dst' (written + length bs) =
        ((written + length bs + length (yield src'), fault_of src'), drained src',
         ?dst' @ yield src')"
      using "1.hyps" [OF R [symmetric] refl _ refl refl refl, of "length bs" None ?dst'] None
      by (auto simp: ResponseWriter_Write_def)
    then show ?thesis
      using R None Y by (subst io_Copy.simps) (auto simp: ResponseWriter_Write_def)
  next
    case (Some x)
    then show ?thesis
      using R Y by (subst io_Copy.simps) (cases x; auto simp: ResponseWriter_Write_def)
  qed
qed

lemma File_Write_keeps:
  "files d k \<noteq> None \<Longrightarrow> files (snd (File_Write k bs d)) k \<noteq> None"
  by (auto simp: File_Write_def Let_def split: option.splits)

lemma io_Copy_keeps:
  "files d k \<noteq> None \<Longrightarrow> files (snd (snd (io_Copy (File_Write k) src d n))) k \<noteq> None"
proof (induction "File_Write k" src d n rule: io_Copy.induct)
  case (1 src dst written)
  obtain bs er src' where R: "Read 32768 src = ((bs, er), src')"
    by (metis prod.exhaust)
  obtain nw ew dst' where W: "File_Write k bs dst = ((nw, ew), dst')"
    by (metis prod.exhaust)
  have K: "files dst' k \<noteq> None"
    using File_Write_keeps [OF "1.prems", of bs] W by simp
  show ?case
  proof (cases "bs = []")
    case True
    then show ?thesis
      using R "1.prems" "1.hyps" [OF R [symmetric] refl _ refl refl refl, of 0 None dst]
      by (subst io_Copy.simps) (auto split: option.splits err.splits)
  next
    case False
    then show ?thesis
      using R W K "1.hyps" [OF R [symmetric] refl _ refl refl refl, of nw ew dst']
      by (subst io_Copy.simps) (auto simp: Let_def split: option.splits err.splits)
  qed
qed

section \<open>The upload handler\<close>

text \<open>
  A well-formed upload onto a disk that can create the destination and has room for the
  part: the whole part is stored, and the response depends only on whether reading the
  part met a fault.
\<close>

lemma uploadHandler_copy:
  assumes "Method r = ''POST''" "multipart r = FormFile name file"
    and "creatable d (upload_path name)" "room_for d (length (yield file))"
  shows "uploadHandler d r =
     (if fault_of file = None then Uploaded name (length (yield file))
      else Error StatusInternalServerError,
      appended (upload_path name) \<lparr>content = [], synced = False\<rparr> (yield file)
        (created (upload_path name) d))"
proof -
  let ?k = "upload_path name"
  let ?f = "\<lparr>content = [], synced = False\<rparr>"
  have C: "os_Create d (''uploads/'' @ name) = Inr (?k, created ?k d)"
    using assms(3) by (simp add: os_Create_def upload_path_def created_def Let_def)
  have "io_Copy (File_Write ?k) file (created ?k d) 0 =
      ((0 + length (yield file), fault_of file), drained file,
       appended ?k ?f (yield file) (created ?k d))"
    using assms(4) by (intro io_Copy_File_Write) (simp_all add: created_def room_for_def)
  then show ?thesis
    using assms(1,2) C by (simp add: uploadHandler_def)
qed

lemma uploadHandler_never_413:
  "fst (uploadHandler d r) \<noteq> Error StatusRequestEntityTooLarge"
  by (auto simp: uploadHandler_def StatusRequestEntityTooLarge_def StatusMethodNotAllowed_def
      StatusBadRequest_def StatusInternalServerError_def
      split: form.splits sum.splits prod.splits)

text \<open>
  What \<^verbatim>\<open>filepath.Base\<close> returns is never empty and holds a slash only when it is \<^verbatim>\<open>/\<close>
  itself, so the destination of an upload named by it is the upload root, the working
  directory, or the file of that name directly under the upload root.
\<close>

lemma filepath_Base_not_Nil: "filepath_Base s \<noteq> []"
proof -
  have "takeWhile (\<lambda>c. c \<noteq> CHR ''/'') (dropWhile (\<lambda>c. c = CHR ''/'') xs) \<noteq> []"
    if "dropWhile (\<lambda>c. c = CHR ''/'') xs \<noteq> []" for xs :: string
    using that hd_dropWhile [OF that] by (cases "dropWhile (\<lambda>c. c = CHR ''/'') xs") auto
  then show ?thesis
    by (auto simp: filepath_Base_def Let_def)
qed

lemma filepath_Base_slash:
  "CHR ''/'' \<in> set (filepath_Base s) \<Longrightarrow> filepath_Base s = ''/''"
  by (auto simp: filepath_Base_def Let_def split: if_splits dest: set_takeWhileD)

lemma split_slash_no_slash: "CHR ''/'' \<notin> set n \<Longrightarrow> split_slash n = [n]"
  by (induction n) auto

lemma upload_path_segment:
  assumes "CHR ''/'' \<notin> set n"
  shows "upload_path n =
     (if n = [] \<or> n = ''.'' then [''uploads''] else if n = ''..'' then [] else [''uploads'', n])"
  using assms by (simp add: upload_path_def path_key_def split_slash_no_slash resolve_step_def)

lemma upload_path_slash: "upload_path ''/'' = [''uploads'']"
  by (simp add: upload_path_def path_key_def resolve_step_def)

lemma upload_path_Base:
  "upload_path (filepath_Base s) = [''uploads''] \<or> upload_path (filepath_Base s) = [] \<or>
   upload_path (filepath_Base s) = [''uploads'', filepath_Base s]"
proof (cases "CHR ''/'' \<in> set (filepath_Base s)")
  case True
  then show ?thesis by (simp add: filepath_Base_slash upload_path_slash)
next
  case False
  then show ?thesis by (simp add: upload_path_segment)
qed

lemma File_Write_frame:
  "k' \<noteq> k \<Longrightarrow> files (snd (File_Write k bs d)) k' = files d k'"
  by (auto simp: File_Write_def Let_def split: option.splits)

lemma io_Copy_frame:
  "k' \<noteq> k \<Longrightarrow> files (snd (snd (io_Copy (File_Write k) src d n))) k' = files d k'"
proof (induction "File_Write k" src d n rule: io_Copy.induct)
  case (1 src dst written)
  obtain bs er src' where R: "Read 32768 src = ((bs, er), src')"
    by (metis prod.exhaust)
  obtain nw ew dst' where W: "File_Write k bs dst = ((nw, ew), dst')"
    by (metis prod.exhaust)
  have K: "files dst' k' = files dst k'"
    using File_Write_frame [OF "1.prems", of bs dst] W by simp
  show ?case
  proof (cases "bs = []")
    case True
    then show ?thesis
      using R "1.prems" "1.hyps" [OF R [symmetric] refl _ refl refl refl, of 0 None dst]
      by (subst io_Copy.simps) (auto split: option.splits err.splits)
  next
    case False
    then show ?thesis
      using R W K "1.prems" "1.hyps" [OF R [symmetric] refl _ refl refl refl, of nw ew dst']
      by (subst io_Copy.simps) (auto simp: Let_def split: option.splits err.splits)
  qed
qed

lemma uploadHandler_frame:
  "k' \<noteq> upload_path name \<Longrightarrow> multipart r = FormFile name file \<Longrightarrow>
   files (snd (uploadHandler d r)) k' = files d k'"
  using io_Copy_frame [of k' "upload_path name" "file"
      "d\<lparr>files := (files d)(upload_path name \<mapsto> \<lparr>content = [], synced = False\<rparr>)\<rparr>" 0]
  by (auto simp: uploadHandler_def os_Create_def Let_def upload_path_def
      split: sum.splits prod.splits)

lemma uploadHandler_refused:
  "Method r = ''POST'' \<Longrightarrow> multipart r = FormFile name file \<Longrightarrow>
   \<not> creatable d (upload_path name) \<Longrightarrow>
   uploadHandler d r = (Error StatusInternalServerError, d)"
  by (simp add: uploadHandler_def os_Create_def Let_def upload_path_def)

text \<open>
  Claim C1 (the destination of an upload is resolved against the upload root and is not
  the file name the caller sent; a path that would leave the root is rejected before a
  file is created): for every file name a client sends in a \<^verbatim>\<open>POST\<close> with a file part, as
  \<^verbatim>\<open>r.FormFile\<close> hands it to the handler, on a disk where the working directory and
  \<^verbatim>\<open>uploads\<close> are directories: either the handler answers 400 or 500 and leaves the disk
  as it was, or the destination is the file named by the base name of what the client
  sent, directly under \<^verbatim>\<open>uploads\<close>, and no other path of the disk changes. The handler has
  no check of its own: the base name is taken by \<^verbatim>\<open>mime/multipart\<close>, and the names \<^verbatim>\<open>.\<close>,
  \<^verbatim>\<open>..\<close> and \<^verbatim>\<open>/\<close> are refused by \<^verbatim>\<open>os.Create\<close>, since they name directories.
\<close>

theorem uploadHandler_destination_inside_upload_root:
  assumes "Method r = ''POST''" and "multipart r = Request_FormFile filename file"
    and "\<not> creatable d []" and "\<not> creatable d [''uploads'']"
  shows "uploadHandler d r = (Error StatusBadRequest, d) \<or>
         uploadHandler d r = (Error StatusInternalServerError, d) \<or>
         (upload_path (filepath_Base filename) = [''uploads'', filepath_Base filename] \<and>
          inside_upload_root (upload_path (filepath_Base filename)) \<and>
          files (snd (uploadHandler d r)) =
            (files d)(upload_path (filepath_Base filename) :=
               files (snd (uploadHandler d r)) (upload_path (filepath_Base filename))))"
proof (cases "filename = []")
  case True
  then show ?thesis
    using assms(1,2) by (simp add: Request_FormFile_def Part_FileName_def uploadHandler_def)
next
  case False
  let ?n = "filepath_Base filename"
  have M: "multipart r = FormFile ?n file"
    using False assms(2) by (simp add: Request_FormFile_def Part_FileName_def filepath_Base_not_Nil)
  consider "upload_path ?n = [''uploads'']" | "upload_path ?n = []"
    | "upload_path ?n = [''uploads'', ?n]"
    using upload_path_Base by blast
  then show ?thesis
  proof cases
    case 1
    then show ?thesis using uploadHandler_refused [OF assms(1) M] assms(4) by simp
  next
    case 2
    then show ?thesis using uploadHandler_refused [OF assms(1) M] assms(3) by simp
  next
    case 3
    have "files (snd (uploadHandler d r)) =
        (files d)(upload_path ?n := files (snd (uploadHandler d r)) (upload_path ?n))"
      using uploadHandler_frame [OF _ M] by (intro ext) simp
    then show ?thesis
      using 3 by (simp add: inside_upload_root_def)
  qed
qed

theorem uploadHandler_destination_inside_upload_root_witness:
  "Method (\<lparr>Method = ''POST'', query_file = [],
            multipart = Request_FormFile ''../index.html'' (StringsReader ''pwn'')\<rparr>) = ''POST'' \<and>
   \<not> creatable disk1 [] \<and> \<not> creatable disk1 [''uploads''] \<and>
   filepath_Base ''../index.html'' = ''index.html'' \<and>
   inside_upload_root (upload_path (filepath_Base ''../index.html'')) \<and>
   uploadHandler disk1
     \<lparr>Method = ''POST'', query_file = [],
      multipart = Request_FormFile ''../index.html'' (StringsReader ''pwn'')\<rparr> =
     (Uploaded ''index.html'' 3,
      disk1\<lparr>files := [[''uploads'', ''index.html''] \<mapsto> \<lparr>content = ''pwn'', synced = False\<rparr>]\<rparr>)"
proof -
  let ?r = "\<lparr>Method = ''POST'', query_file = [],
      multipart = Request_FormFile ''../index.html'' (StringsReader ''pwn'')\<rparr>"
  have b: "filepath_Base ''../index.html'' = ''index.html''"
    by (simp add: filepath_Base_def)
  have k: "upload_path ''index.html'' = [''uploads'', ''index.html'']"
    by (simp add: upload_path_def path_key_def resolve_step_def)
  have m: "multipart ?r = FormFile ''index.html'' (StringsReader ''pwn'')"
    by (simp add: Request_FormFile_def Part_FileName_def b)
  have e: "uploadHandler disk1 ?r =
     (Uploaded ''index.html'' 3,
      disk1\<lparr>files := [[''uploads'', ''index.html''] \<mapsto> \<lparr>content = ''pwn'', synced = False\<rparr>]\<rparr>)"
    using uploadHandler_copy [of ?r "''index.html''" "StringsReader ''pwn''" disk1] m
    by (simp add: k disk1_def disk0_def room_for_def appended_def created_def)
  show ?thesis
    using uploadHandler_destination_inside_upload_root
      [of ?r "''../index.html''" "StringsReader ''pwn''" disk1] e
    by (simp add: b k disk1_def disk0_def inside_upload_root_def)
qed

lemma uploadHandler_rejects_dot_dot:
  "uploadHandler disk1
     \<lparr>Method = ''POST'', query_file = [],
      multipart = Request_FormFile ''a/..'' (StringsReader ''pwn'')\<rparr> =
   (Error StatusInternalServerError, disk1)"
  by (simp add: uploadHandler_def Request_FormFile_def Part_FileName_def filepath_Base_def
      os_Create_def path_key_def resolve_step_def disk1_def disk0_def Let_def)

text \<open>
  Claim C3 (an upload whose body exceeds the size ceiling fails with status 413 before
  the excess reaches the destination). The handler does not do this: it copies the part
  with \<^verbatim>\<open>io.Copy\<close> and no limit. The only size in it is the \<^verbatim>\<open>10 << 20\<close> handed to
  \<^verbatim>\<open>ParseMultipartForm\<close>; a part of one byte more is stored whole and answered with the
  success line.
\<close>

theorem uploadHandler_accepts_oversized_body:
  "10 * 2 ^ 20 < length (replicate 10485761 (CHR ''x'')) \<and>
   fst (uploadHandler disk0
          (upload_request ''big.bin'' (StringsReader (replicate 10485761 (CHR ''x''))))) =
     Uploaded ''big.bin'' 10485761 \<and>
   fst (uploadHandler disk0
          (upload_request ''big.bin'' (StringsReader (replicate 10485761 (CHR ''x''))))) \<noteq>
     Error StatusRequestEntityTooLarge"
proof -
  have k: "upload_path ''big.bin'' = [''uploads'', ''big.bin'']"
    by (simp add: upload_path_def path_key_def resolve_step_def)
  have "fst (uploadHandler disk0
          (upload_request ''big.bin'' (StringsReader (replicate 10485761 (CHR ''x''))))) =
     Uploaded ''big.bin'' 10485761"
    using uploadHandler_copy
      [of "upload_request ''big.bin'' (StringsReader (replicate 10485761 (CHR ''x'')))"
        "''big.bin''" "StringsReader (replicate 10485761 (CHR ''x''))" disk0]
    by (simp add: k upload_request_def disk0_def room_for_def)
  then show ?thesis by simp
qed

text \<open>The only error responses of the upload handler are 405, 400 and 500.\<close>

lemma uploadHandler_error_codes:
  "fst (uploadHandler d r) = Error c \<Longrightarrow>
   c = StatusMethodNotAllowed \<or> c = StatusBadRequest \<or> c = StatusInternalServerError"
  by (auto simp: uploadHandler_def split: form.splits sum.splits prod.splits if_splits)

text \<open>
  Claim C10 (an upload under the name of a stored file replaces that file): for a
  well-formed upload whose part is read without a fault, onto a disk that lets the
  destination be created and has room for the part, where a file is already stored at
  the destination: the response is the success line with the length of the part, the
  file at the destination holds exactly the part (nothing of the old content), and no
  other file changes.
\<close>

theorem uploadHandler_replaces_existing_file:
  assumes "Method r = ''POST''" and "multipart r = FormFile name file"
    and "creatable d (upload_path name)" and "room_for d (length (yield file))"
    and "fault_of file = None"
    and "files d (upload_path name) = Some old"
  shows "fst (uploadHandler d r) = Uploaded name (length (yield file)) \<and>
         files (snd (uploadHandler d r)) =
           (files d)(upload_path name \<mapsto> \<lparr>content = yield file, synced = False\<rparr>)"
  using assms by (simp add: uploadHandler_copy appended_def created_def)

theorem uploadHandler_replaces_existing_file_witness:
  "Method (upload_request ''a.txt'' (StringsReader ''new'')) = ''POST'' \<and>
   multipart (upload_request ''a.txt'' (StringsReader ''new'')) =
     FormFile ''a.txt'' (StringsReader ''new'') \<and>
   creatable (stored [''uploads'', ''a.txt''] ''old content'' disk0) (upload_path ''a.txt'') \<and>
   room_for (stored [''uploads'', ''a.txt''] ''old content'' disk0)
     (length (yield (StringsReader ''new''))) \<and>
   fault_of (StringsReader ''new'') = None \<and>
   files (stored [''uploads'', ''a.txt''] ''old content'' disk0) (upload_path ''a.txt'') =
     Some \<lparr>content = ''old content'', synced = True\<rparr> \<and>
   fst (uploadHandler (stored [''uploads'', ''a.txt''] ''old content'' disk0)
          (upload_request ''a.txt'' (StringsReader ''new''))) = Uploaded ''a.txt'' 3 \<and>
   files (snd (uploadHandler (stored [''uploads'', ''a.txt''] ''old content'' disk0)
                 (upload_request ''a.txt'' (StringsReader ''new'')))) =
     [[''uploads'', ''a.txt''] \<mapsto> \<lparr>content = ''new'', synced = False\<rparr>]"
proof -
  have k: "upload_path ''a.txt'' = [''uploads'', ''a.txt'']"
    by (simp add: upload_path_def path_key_def resolve_step_def)
  show ?thesis
    using uploadHandler_replaces_existing_file
      [of "upload_request ''a.txt'' (StringsReader ''new'')" "''a.txt''" "StringsReader ''new''"
        "stored [''uploads'', ''a.txt''] ''old content'' disk0"
        "\<lparr>content = ''old content'', synced = True\<rparr>"]
    by (simp add: k upload_request_def disk0_def stored_def room_for_def)
qed

text \<open>
  Claim C4 (a failed transfer leaves no destination file; a successful one is synced
  before its byte count is reported). The upload handler does neither: when the disk
  runs full after two of three bytes, it answers 500 and leaves the two bytes stored at
  the destination; when the part's reader faults after three bytes, it answers 500 and
  leaves the three bytes; and after a successful upload the stored file has not been
  synced.
\<close>

theorem uploadHandler_leaves_partial_file:
  "uploadHandler (disk0\<lparr>room := Some 2\<rparr>) (upload_request ''a.txt'' (StringsReader ''abc'')) =
     (Error StatusInternalServerError,
      disk0\<lparr>files := [[''uploads'', ''a.txt''] \<mapsto> \<lparr>content = ''ab'', synced = False\<rparr>],
            room := Some 0\<rparr>) \<and>
   uploadHandler disk0
       (upload_request ''a.txt'' (Script [(''abc'', None), ([], Some (Fault ''read''))])) =
     (Error StatusInternalServerError,
      disk0\<lparr>files := [[''uploads'', ''a.txt''] \<mapsto> \<lparr>content = ''abc'', synced = False\<rparr>]\<rparr>) \<and>
   uploadHandler disk0 (upload_request ''a.txt'' (StringsReader ''abc'')) =
     (Uploaded ''a.txt'' 3,
      disk0\<lparr>files := [[''uploads'', ''a.txt''] \<mapsto> \<lparr>content = ''abc'', synced = False\<rparr>]\<rparr>)"
proof -
  have k: "upload_path ''a.txt'' = [''uploads'', ''a.txt'']"
    by (simp add: upload_path_def path_key_def resolve_step_def)
  have full: "uploadHandler (disk0\<lparr>room := Some 2\<rparr>)
        (upload_request ''a.txt'' (StringsReader ''abc'')) =
     (Error StatusInternalServerError,
      disk0\<lparr>files := [[''uploads'', ''a.txt''] \<mapsto> \<lparr>content = ''ab'', synced = False\<rparr>],
            room := Some 0\<rparr>)"
    apply (simp add: uploadHandler_def upload_request_def os_Create_def path_key_def
        resolve_step_def disk0_def Let_def)
    apply (subst io_Copy.simps)
    apply (simp add: File_Write_def Let_def)
    done
  have fault: "uploadHandler disk0
       (upload_request ''a.txt'' (Script [(''abc'', None), ([], Some (Fault ''read''))])) =
     (Error StatusInternalServerError,
      disk0\<lparr>files := [[''uploads'', ''a.txt''] \<mapsto> \<lparr>content = ''abc'', synced = False\<rparr>]\<rparr>)"
    using uploadHandler_copy
      [of "upload_request ''a.txt'' (Script [(''abc'', None), ([], Some (Fault ''read''))])"
        "''a.txt''" "Script [(''abc'', None), ([], Some (Fault ''read''))]" disk0]
    by (simp add: k upload_request_def disk0_def room_for_def appended_def created_def)
  have ok: "uploadHandler disk0 (upload_request ''a.txt'' (StringsReader ''abc'')) =
     (Uploaded ''a.txt'' 3,
      disk0\<lparr>files := [[''uploads'', ''a.txt''] \<mapsto> \<lparr>content = ''abc'', synced = False\<rparr>]\<rparr>)"
    using uploadHandler_copy
      [of "upload_request ''a.txt'' (StringsReader ''abc'')" "''a.txt''" "StringsReader ''abc''" disk0]
    by (simp add: k upload_request_def disk0_def room_for_def appended_def created_def)
  from full fault ok show ?thesis by simp
qed

section \<open>The safe file copy\<close>

text \<open>
  The sibling of the upload, \<^verbatim>\<open>safeCopyFile\<close>, does roll back and sync: when it returns
  an error after the destination was created, no file is left at the destination, and
  when it returns no error the destination is stored and synced.
\<close>

lemma safeCopyFile_rolls_back:
  "safeCopyFile d src dst = (Some e, d') \<Longrightarrow> os_Open d src = Inr data \<Longrightarrow>
   creatable d (path_key dst) \<Longrightarrow> files d' (path_key dst) = None"
  by (auto simp: safeCopyFile_def os_Create_def os_Remove_def Let_def
      split: sum.splits prod.splits option.splits)

lemma safeCopyFile_success_synced:
  assumes "safeCopyFile d src dst = (None, d')"
  shows "\<exists>f. files d' (path_key dst) = Some f \<and> synced f"
proof -
  let ?k = "path_key dst"
  from assms obtain data0 where O: "os_Open d src = Inr data0"
    by (auto simp: safeCopyFile_def split: sum.splits)
  from assms O have C: "creatable d ?k"
    by (auto simp: safeCopyFile_def os_Create_def Let_def split: sum.splits if_splits)
  let ?d1 = "d\<lparr>files := (files d)(?k \<mapsto> \<lparr>content = [], synced = False\<rparr>)\<rparr>"
  let ?src = "StringsReader (case os_Open ?d1 src of Inl e \<Rightarrow> [] | Inr data \<Rightarrow> data)"
  obtain w e src' d2 where I: "io_Copy (File_Write ?k) ?src ?d1 0 = ((w, e), src', d2)"
    by (metis prod.exhaust)
  have "files ?d1 ?k \<noteq> None" by simp
  from io_Copy_keeps [OF this, of ?src 0] I have K: "files d2 ?k \<noteq> None" by simp
  from assms O C I have "e = None" and "\<not> sync_fails d2" and "d' = snd (File_Sync ?k d2)"
    by (auto simp: safeCopyFile_def os_Create_def Let_def File_Sync_def
        split: option.splits if_splits)
  with K show ?thesis
    by (auto simp: File_Sync_def)
qed

section \<open>The download handlers\<close>

text \<open>
  Claim C2 (the \<^verbatim>\<open>Content-Disposition\<close> file name is the last path segment only).
  \<^verbatim>\<open>downloadHandler\<close> does not do this: with \<^verbatim>\<open>uploads/report.txt\<close> stored, the requests
  for \<^verbatim>\<open>../secret/report.txt\<close> and for \<^verbatim>\<open>report.txt\<close> have the same base name and are served
  the same file, but the first one's header carries the directories of the query
  parameter and so differs from the second one's.
\<close>

theorem downloadHandler_header_keeps_directories:
  "downloadHandler (stored [''uploads'', ''report.txt''] ''hello'' disk0)
      (download_request ''../secret/report.txt'') =
     Download [(''Content-Disposition'', ''attachment; filename=../secret/report.txt''),
               (''Content-Type'', ''application/octet-stream''),
               (''Content-Length'', ''5'')] ''hello'' \<and>
   downloadHandler (stored [''uploads'', ''report.txt''] ''hello'' disk0)
      (download_request ''report.txt'') =
     Download [(''Content-Disposition'', ''attachment; filename=report.txt''),
               (''Content-Type'', ''application/octet-stream''),
               (''Content-Length'', ''5'')] ''hello'' \<and>
   filepath_Base ''../secret/report.txt'' = filepath_Base ''report.txt''"
  by (simp add: downloadHandler_def download_request_def stored_def disk0_def filepath_Base_def
      os_Open_def path_key_def resolve_step_def io_Copy_ResponseWriter FormatInt.simps)

text \<open>
  \<^verbatim>\<open>rangeDownloadHandler\<close> does: its response, header included, is the same for any two
  non-empty query parameters with the same base name, and the header holds the base name.
\<close>

lemma rangeDownloadHandler_base_only:
  "query_file r \<noteq> [] \<Longrightarrow> query_file r' \<noteq> [] \<Longrightarrow>
   filepath_Base (query_file r) = filepath_Base (query_file r') \<Longrightarrow>
   rangeDownloadHandler d r = rangeDownloadHandler d r'"
  by (simp add: rangeDownloadHandler_def Let_def)

lemma rangeDownloadHandler_header:
  "rangeDownloadHandler d r = ServeContent hdr name data \<Longrightarrow>
   hdr = [(''Content-Disposition'', ''attachment; filename='' @ filepath_Base (query_file r))]"
  by (auto simp: rangeDownloadHandler_def Let_def split: if_splits sum.splits)

section \<open>The reader adapters\<close>

text \<open>
  Claim C5 as stated (the progress callback is not invoked when the inner read returns a
  fault) does not hold: on an inner read that returns zero bytes and a fault, the
  callback is called once, with the unchanged count and the total.
\<close>

theorem ProgressReader_Read_reports_on_fault:
  "ProgressReader_Read Read 4
     (NewProgressReader (Script [([], Some (Fault ''io''))]) 10 True) [] =
   (([], Some (Fault ''io'')), NewProgressReader (Script []) 10 True, [(0, 10)])"
  by (simp add: ProgressReader_Read_def NewProgressReader_def)

text \<open>
  Claim C5, amended: on every call of \<^verbatim>\<open>Read\<close> on a progress reader whose callback is set,
  whatever the inner read returns (bytes, a stall, end of data or a fault), the result of
  the inner read is handed on unchanged, \<^verbatim>\<open>current\<close> grows by the number of bytes read,
  and the callback is invoked exactly once, with the new \<^verbatim>\<open>current\<close> and the total.
\<close>

theorem ProgressReader_Read_reports_every_call:
  assumes "callback pr"
  shows "ProgressReader_Read rd len_p pr calls =
     (fst (rd len_p (ProgressReader.reader pr)),
      pr\<lparr>ProgressReader.reader := snd (rd len_p (ProgressReader.reader pr)),
         current := current pr + of_nat (length (fst (fst (rd len_p (ProgressReader.reader pr)))))\<rparr>,
      calls @
        [(current pr + of_nat (length (fst (fst (rd len_p (ProgressReader.reader pr))))),
          total pr)])"
  using assms by (simp add: ProgressReader_Read_def Let_def split: prod.splits)

theorem ProgressReader_Read_reports_every_call_witness:
  "callback ((NewProgressReader (Script [(''abc'', None)]) 10 True)\<lparr>current := 4\<rparr>) \<and>
   ProgressReader_Read Read 8
     ((NewProgressReader (Script [(''abc'', None)]) 10 True)\<lparr>current := 4\<rparr>) [(4, 10)] =
   ((''abc'', None),
    (NewProgressReader (Script []) 10 True)\<lparr>current := 7\<rparr>, [(4, 10), (7, 10)])"
  using ProgressReader_Read_reports_every_call
    [of "(NewProgressReader (Script [(''abc'', None)]) 10 True)\<lparr>current := 4\<rparr>"
      Read 8 "[(4, 10)]"]
  by (simp add: NewProgressReader_def)

lemma ProgressReader_Read_nil_callback:
  "\<not> callback pr \<Longrightarrow> snd (snd (ProgressReader_Read rd len_p pr calls)) = calls"
  by (simp add: ProgressReader_Read_def Let_def split: prod.splits)

text \<open>
  Claim C6 (the throttled reader's tokens never exceed one second's worth, so a read
  after any idle time is granted at most \<^verbatim>\<open>bytesPerSec\<close> bytes). The reader does not do
  this: it keeps no bucket, and the allowance is the rate times the whole time since the
  last read. At 1024 bytes per second, a read with a 32 KiB buffer 40 seconds after the
  last one is allowed 40960 bytes and returns all 32768 bytes of the buffer.
\<close>

theorem ThrottledReader_Read_burst_after_idle:
  "allowedBytes 1024 (40000000000 - 0) = 40960 \<and>
   ThrottledReader_Read Read 32768 40000000000 40000000001
     (NewThrottledReader (StringsReader (replicate 40000 (CHR ''x''))) 1024 0) =
   Returns ((replicate 32768 (CHR ''x''), None),
     NewThrottledReader (StringsReader (replicate 7232 (CHR ''x''))) 1024 40000000001) \<and>
   1024 < length (replicate 32768 (CHR ''x''))"
  by (simp add: ThrottledReader_Read_def NewThrottledReader_def allowedBytes_def Let_def)

section \<open>The chunked loop\<close>

text \<open>
  A read of a regular file into a buffer that is not empty never stalls: it returns
  bytes, or zero bytes with \<^verbatim>\<open>io.EOF\<close>. The stalls of the repository come from the
  throttled reader, which step 11 drives with \<^verbatim>\<open>io.Copy\<close>, and \<^verbatim>\<open>io.Copy\<close> reads on after
  a stall.
\<close>

lemma StringsReader_never_stalls:
  "0 < cap \<Longrightarrow> fst (Read cap (StringsReader s)) \<noteq> ([], None)"
  by auto

lemma io_Copy_stall:
  "io_Copy wr (Script (([], None) # rs)) dst n = io_Copy wr (Script rs) dst n"
  by (subst io_Copy.simps) simp




section \<open>The tee reader\<close>

text \<open>
  Claim C9 (the tee feeds the mirror the bytes it delivers to the primary sink, and the
  mirror's digest is that of the input hashed directly): for every \<^verbatim>\<open>data\<close>, on a disk
  that lets \<^verbatim>\<open>tee_reader.txt\<close> be created and has room for the data, the program stores
  exactly \<^verbatim>\<open>data\<close> in the file, the hash has been written exactly \<^verbatim>\<open>data\<close>, the byte count
  printed is the length of \<^verbatim>\<open>data\<close>, and the checksum printed is the digest of a fresh
  hash that was written \<^verbatim>\<open>data\<close> in one piece.
\<close>

theorem teeReaderPattern_mirror_equals_primary:
  assumes "creatable d (path_key ''tee_reader.txt'')" and "room_for d (length data)"
  shows "files (snd (snd (teeReaderPattern md5 d data))) =
           (files d)(path_key ''tee_reader.txt'' \<mapsto> \<lparr>content = data, synced = False\<rparr>) \<and>
         fst (snd (teeReaderPattern md5 d data)) = data \<and>
         fst (teeReaderPattern md5 d data) =
           (hash_Sum md5 (snd (hash_Write data [])), length data)"
proof -
  let ?k = "path_key ''tee_reader.txt''"
  let ?tee = "TeeReader (StringsReader data) []"
  have C: "os_Create d ''tee_reader.txt'' = Inr (?k, created ?k d)"
    using assms(1) by (simp add: os_Create_def created_def Let_def)
  have "io_Copy (File_Write ?k) ?tee (created ?k d) 0 =
      ((0 + length (yield ?tee), fault_of ?tee), drained ?tee,
        appended ?k \<lparr>content = [], synced = False\<rparr> (yield ?tee) (created ?k d))"
    using assms(2) by (intro io_Copy_File_Write) (simp_all add: created_def room_for_def)
  then have "teeReaderPattern md5 d data =
     ((md5 data, length data), data,
      appended ?k \<lparr>content = [], synced = False\<rparr> data (created ?k d))"
    using C by (simp add: teeReaderPattern_def hash_Sum_def)
  then show ?thesis
    by (simp add: appended_def created_def hash_Sum_def hash_Write_def)
qed

theorem teeReaderPattern_mirror_equals_primary_witness:
  "creatable disk0 (path_key ''tee_reader.txt'') \<and> room_for disk0 (length ''hello'') \<and>
   files (snd (snd (teeReaderPattern rev disk0 ''hello''))) =
     [[''tee_reader.txt''] \<mapsto> \<lparr>content = ''hello'', synced = False\<rparr>] \<and>
   fst (snd (teeReaderPattern rev disk0 ''hello'')) = ''hello'' \<and>
   fst (teeReaderPattern rev disk0 ''hello'') = (''olleh'', 5)"
proof -
  have k: "path_key ''tee_reader.txt'' = [''tee_reader.txt'']"
    by (simp add: path_key_def resolve_step_def)
  show ?thesis
    using teeReaderPattern_mirror_equals_primary [of disk0 "''hello''" rev]
    by (simp add: k disk0_def room_for_def hash_Sum_def hash_Write_def)
qed

end
